theory Spec2Isabelle
  imports Complex_Main
begin

section \<open>Text primitives\<close>

text \<open>
  The text primitives of this section are those of ASCII strings (the news query asks for
  \<open>language: en\<close>); the Text Normalizer below takes the character tables as a parameter
  instead.
  Python floats are modelled as the real numbers they denote and a missing value (NaN) of a
  float column as \<open>None\<close>; rounding is not part of the model. Library calls (Python's
  \<open>str\<close> methods, \<open>re.sub\<close>, NLTK's tokenizer, pandas) are modelled by what their
  documentation says they compute on these inputs.
\<close>

definition isspace :: "char \<Rightarrow> bool" where
  \<comment> \<open>\<open>str.isspace\<close> on ASCII: TAB, LF, VT, FF, CR, FS, GS, RS, US and SPACE; also
      what \<open>str.split()\<close> splits on and what \<open>\s\<close> matches.\<close>
  "isspace c = (let n = (of_char c :: nat) in (9 \<le> n \<and> n \<le> 13) \<or> (28 \<le> n \<and> n \<le> 32))"

definition isupper :: "char \<Rightarrow> bool" where
  "isupper c = (let n = (of_char c :: nat) in 65 \<le> n \<and> n \<le> 90)"

definition islower :: "char \<Rightarrow> bool" where
  "islower c = (let n = (of_char c :: nat) in 97 \<le> n \<and> n \<le> 122)"

definition isdigit :: "char \<Rightarrow> bool" where
  "isdigit c = (let n = (of_char c :: nat) in 48 \<le> n \<and> n \<le> 57)"

definition lower_char :: "char \<Rightarrow> char" where
  "lower_char c = (if isupper c then char_of (of_char c + 32 :: nat) else c)"

definition lower :: "string \<Rightarrow> string" where
  \<comment> \<open>\<open>text.lower()\<close>\<close>
  "lower s = map lower_char s"

fun split_from :: "string \<Rightarrow> string \<Rightarrow> string list" where
  \<comment> \<open>the scanning loop of \<open>str.split()\<close>: \<open>cur\<close> is the word being read\<close>
  "split_from cur [] = (if cur = [] then [] else [cur])"
| "split_from cur (c # cs) =
     (if isspace c then (if cur = [] then split_from [] cs else cur # split_from [] cs)
      else split_from (cur @ [c]) cs)"

definition split :: "string \<Rightarrow> string list" where
  \<comment> \<open>\<open>text.split()\<close>: maximal runs of non-whitespace, no empty strings\<close>
  "split s = split_from [] s"

section \<open>Financial Sentiment Adjuster\<close>

text \<open>
  \<^verbatim>\<open>financial_sentiment_adjustment(text, sentiment_score)\<close>. The two lexicon sets are
  loaded from an external dictionary file, so they are parameters here. The loop keeps the
  two counters as the pair \<open>(pos_score, neg_score)\<close>.
\<close>

fun count_loop :: "string set \<Rightarrow> string set \<Rightarrow> string list \<Rightarrow> int \<times> int \<Rightarrow> int \<times> int" where
  "count_loop lm_positive lm_negative [] (pos_score, neg_score) = (pos_score, neg_score)"
| "count_loop lm_positive lm_negative (word # words) (pos_score, neg_score) =
     (if word \<in> lm_positive
        then count_loop lm_positive lm_negative words (pos_score + 1, neg_score)
      else if word \<in> lm_negative
        then count_loop lm_positive lm_negative words (pos_score, neg_score + 1)
      else count_loop lm_positive lm_negative words (pos_score, neg_score))"

definition financial_sentiment_adjustment ::
    "string set \<Rightarrow> string set \<Rightarrow> string \<Rightarrow> real \<Rightarrow> real" where
  "financial_sentiment_adjustment lm_positive lm_negative text sentiment_score =
     (let words = split (lower text);
          (pos_score, neg_score) = count_loop lm_positive lm_negative words (0, 0);
          adjusted = sentiment_score + real_of_int (pos_score - neg_score) * (1 / 10)
      in max (- 1) (min 1 adjusted))"

text \<open>
  The adjuster as the specification words it: the hits are counted on the tokens of a
  whitespace split, a token of the positive set counting as positive only.
\<close>

definition pos_count :: "string set \<Rightarrow> string list \<Rightarrow> int" where
  "pos_count lm_positive tokens = int (length (filter (\<lambda>w. w \<in> lm_positive) tokens))"

definition neg_count :: "string set \<Rightarrow> string set \<Rightarrow> string list \<Rightarrow> int" where
  "neg_count lm_positive lm_negative tokens =
     int (length (filter (\<lambda>w. w \<notin> lm_positive \<and> w \<in> lm_negative) tokens))"

definition clamp :: "real \<Rightarrow> real \<Rightarrow> real \<Rightarrow> real" where
  "clamp lo hi x = max lo (min hi x)"

definition spec_adjuster :: "string set \<Rightarrow> string set \<Rightarrow> string \<Rightarrow> real \<Rightarrow> real" where
  \<comment> \<open>the specification's reading: split on whitespace, no further normalization\<close>
  "spec_adjuster lm_positive lm_negative text base_score =
     clamp (- 1) 1
       (base_score +
        real_of_int (pos_count lm_positive (split text)
                     - neg_count lm_positive lm_negative (split text)) * (1 / 10))"

section \<open>Text Normalizer\<close>

text \<open>
  The normalizer reads headlines as they come, so its text is a list of code points of any
  type \<open>'c\<close>, and what Python's Unicode database decides is a parameter: the case mapping
  of \<open>str.lower\<close> (a function of the whole string, as it may change the length and depend
  on the context), the alphanumeric characters, the whitespace characters, and the two
  characters the code names itself, the underscore of the class \<open>\w\<close> and the space of
  the join.
\<close>

record 'c unicode_tables =
  u_lower :: "'c list \<Rightarrow> 'c list"
  u_isalnum :: "'c \<Rightarrow> bool"
  u_isspace :: "'c \<Rightarrow> bool"
  u_underscore :: 'c
  u_space :: 'c

definition isalnum :: "char \<Rightarrow> bool" where
  "isalnum c = (isupper c \<or> islower c \<or> isdigit c)"

definition ascii_tables :: "char unicode_tables" where
  \<comment> \<open>the tables on ASCII text\<close>
  "ascii_tables =
     \<lparr>u_lower = lower, u_isalnum = isalnum, u_isspace = isspace,
      u_underscore = CHR ''_'', u_space = CHR '' ''\<rparr>"

definition is_word_char :: "'c unicode_tables \<Rightarrow> 'c \<Rightarrow> bool" where
  \<comment> \<open>the class \<open>\w\<close> on \<open>str\<close>: the alphanumeric characters and the underscore\<close>
  "is_word_char U c = (u_isalnum U c \<or> c = u_underscore U)"

definition re_sub_non_word_space :: "'c unicode_tables \<Rightarrow> 'c list \<Rightarrow> 'c list" where
  \<comment> \<open>\<open>re.sub(r'[^\w\s]', '', text)\<close>: every character that is neither \<open>\w\<close> nor \<open>\s\<close>
      is deleted\<close>
  "re_sub_non_word_space U text = filter (\<lambda>c. is_word_char U c \<or> u_isspace U c) text"

fun join_with :: "'c list \<Rightarrow> 'c list list \<Rightarrow> 'c list" where
  \<comment> \<open>\<open>sep.join(words)\<close>\<close>
  "join_with sep [] = []"
| "join_with sep [w] = w"
| "join_with sep (w # v # ws) = w @ sep @ join_with sep (v # ws)"

fun split_with_from :: "('c \<Rightarrow> bool) \<Rightarrow> 'c list \<Rightarrow> 'c list \<Rightarrow> 'c list list" where
  \<comment> \<open>the scanning loop of \<open>str.split()\<close> for a given class of whitespace\<close>
  "split_with_from space cur [] = (if cur = [] then [] else [cur])"
| "split_with_from space cur (c # cs) =
     (if space c
      then (if cur = [] then split_with_from space [] cs
            else cur # split_with_from space [] cs)
      else split_with_from space (cur @ [c]) cs)"

definition split_with :: "('c \<Rightarrow> bool) \<Rightarrow> 'c list \<Rightarrow> 'c list list" where
  "split_with space s = split_with_from space [] s"

text \<open>
  \<^verbatim>\<open>clean_text(text)\<close>. NLTK's \<open>word_tokenize\<close> and the stop-word set it filters with are
  library data, so both are parameters. What the properties below need of the tokenizer is
  stated where it is used: its tokens are non-empty, free of whitespace and made of
  characters of its input, and it returns no token on the empty string. Python's
  \<open>split\<close> is such a tokenizer.
\<close>

definition clean_text ::
    "'c unicode_tables \<Rightarrow> ('c list \<Rightarrow> 'c list list) \<Rightarrow> 'c list set \<Rightarrow> 'c list \<Rightarrow> 'c list" where
  "clean_text U word_tokenize stop_words text =
     (let text1 = u_lower U text;
          text2 = re_sub_non_word_space U text1
      in join_with [u_space U] (filter (\<lambda>word. word \<notin> stop_words) (word_tokenize text2)))"

definition tokenizer_ok :: "('c \<Rightarrow> bool) \<Rightarrow> ('c list \<Rightarrow> 'c list list) \<Rightarrow> 'c list \<Rightarrow> bool" where
  \<comment> \<open>the tokens returned on \<open>s\<close> are non-empty, free of whitespace and made of
      characters of \<open>s\<close>\<close>
  "tokenizer_ok space word_tokenize s =
     list_all (\<lambda>w. w \<noteq> [] \<and> list_all (\<lambda>c. c \<in> set s \<and> \<not> space c) w) (word_tokenize s)"

section \<open>The news request\<close>

text \<open>
  The script makes one request and looks at its status code once. A run either exits
  there, having printed the failure message with the status code, or goes on with the rest
  of the script, which is a parameter.
\<close>

datatype 'a outcome = Exited string int | Ran 'a

definition news_request :: "int \<Rightarrow> (unit \<Rightarrow> 'a) \<Rightarrow> 'a outcome" where
  \<comment> \<open>\<open>if response.status_code != 200: print("Failed to retrieve news:", ...); exit()\<close>\<close>
  "news_request status_code rest =
     (if status_code \<noteq> 200 then Exited ''Failed to retrieve news:'' status_code
      else Ran (rest ()))"

section \<open>Data frames\<close>

text \<open>
  A calendar date is the number of its day. A row of \<open>news_df\<close> carries the columns the
  script reads or writes; the other fields of an article are not used. A frame is the list
  of its rows, in row order; a column derived later is the list of its values.
\<close>

type_synonym date = int

record news_row =
  title :: string
  publishedAt :: date
  cleaned_title :: string
  sentiment :: real
  adjusted_sentiment :: real

definition score_article ::
    "char unicode_tables \<Rightarrow> (string \<Rightarrow> string list) \<Rightarrow> string set \<Rightarrow> (string \<Rightarrow> real)
     \<Rightarrow> string set \<Rightarrow> string set \<Rightarrow> string \<times> date \<Rightarrow> news_row" where
  \<comment> \<open>the three \<open>apply\<close> calls on one article; \<open>sia\<close> is VADER's compound score\<close>
  "score_article U word_tokenize stop_words sia lm_positive lm_negative a =
     (let cleaned = clean_text U word_tokenize stop_words (fst a);
          score = sia cleaned
      in \<lparr>title = fst a, publishedAt = snd a, cleaned_title = cleaned, sentiment = score,
          adjusted_sentiment =
            financial_sentiment_adjustment lm_positive lm_negative cleaned score\<rparr>)"

subsection \<open>Temporal Aggregator\<close>

text \<open>
  \<^verbatim>\<open>news_df.groupby('publishedAt')['adjusted_sentiment'].mean().reset_index()\<close>:
  the rows are put into groups by key, a new key opening a new group; the groups come out
  sorted by key (\<open>sort=True\<close> is the default of \<open>groupby\<close>), each with the mean of its
  values.
\<close>

fun add_to_group :: "date \<Rightarrow> real \<Rightarrow> (date \<times> real list) list \<Rightarrow> (date \<times> real list) list" where
  "add_to_group k v [] = [(k, [v])]"
| "add_to_group k v ((k', vs) # groups) =
     (if k = k' then (k', vs @ [v]) # groups else (k', vs) # add_to_group k v groups)"

definition group_values :: "(date \<times> real list) list \<Rightarrow> date \<Rightarrow> real list" where
  \<comment> \<open>the values collected under a key so far\<close>
  "group_values groups k = (case map_of groups k of None \<Rightarrow> [] | Some vs \<Rightarrow> vs)"

definition groups_of :: "news_row list \<Rightarrow> (date \<times> real list) list" where
  "groups_of rows =
     foldl (\<lambda>groups r. add_to_group (publishedAt r) (adjusted_sentiment r) groups) [] rows"

definition mean :: "real list \<Rightarrow> real" where
  "mean vs = sum_list vs / real (length vs)"

record daily_sentiment =
  day :: date
  mean_adjusted_sentiment :: real

definition daily_adjusted_sentiment :: "news_row list \<Rightarrow> daily_sentiment list" where
  "daily_adjusted_sentiment rows =
     map (\<lambda>(k, vs). \<lparr>day = k, mean_adjusted_sentiment = mean vs\<rparr>)
       (sort_key fst (groups_of rows))"

subsection \<open>Merge with the price series\<close>

record price_point =
  Date :: date
  Close :: real

definition pd_merge :: "news_row list \<Rightarrow> price_point list \<Rightarrow> (news_row \<times> price_point) list" where
  \<comment> \<open>\<open>pd.merge(news_df, stock_data, left_on='publishedAt', right_on='Date', how='inner')\<close>:
      every pair of a left and a right row with equal keys, the left rows in their order;
      a merged row has the columns of both\<close>
  "pd_merge news_df stock_data =
     concat (map (\<lambda>n. map (\<lambda>p. (n, p)) (filter (\<lambda>p. Date p = publishedAt n) stock_data))
               news_df)"

subsection \<open>Feature engineering\<close>

definition shift1 :: "'a option list \<Rightarrow> 'a option list" where
  \<comment> \<open>\<open>.shift(1)\<close>: every value moves one row down, the first row gets NaN\<close>
  "shift1 col = (if col = [] then [] else None # butlast col)"

definition lagged_sentiment :: "(news_row \<times> price_point) list \<Rightarrow> real option list" where
  \<comment> \<open>\<open>merged_data['adjusted_sentiment'].shift(1)\<close>\<close>
  "lagged_sentiment merged_data =
     shift1 (map (\<lambda>m. Some (adjusted_sentiment (fst m))) merged_data)"

definition rolling_mean :: "nat \<Rightarrow> real list \<Rightarrow> real option list" where
  \<comment> \<open>\<open>.rolling(window=w).mean()\<close>: \<open>min_periods\<close> defaults to the window, so a row with
      fewer than \<open>w\<close> observations up to it gets NaN\<close>
  "rolling_mean w col =
     map (\<lambda>t. if t + 1 < w then None
              else Some (sum_list (take w (drop (t + 1 - w) col)) / real w))
       [0..<length col]"

definition MA_7_day :: "(news_row \<times> price_point) list \<Rightarrow> real option list" where
  \<comment> \<open>\<open>merged_data['Close'].rolling(window=7).mean()\<close>\<close>
  "MA_7_day merged_data = rolling_mean 7 (map (\<lambda>m. Close (snd m)) merged_data)"

fun ffill_from :: "'a option \<Rightarrow> 'a option list \<Rightarrow> 'a option list" where
  \<comment> \<open>\<open>prev\<close> is the most recent valid value seen so far\<close>
  "ffill_from prev [] = []"
| "ffill_from prev (None # col) = prev # ffill_from prev col"
| "ffill_from prev (Some v # col) = Some v # ffill_from (Some v) col"

definition ffill :: "'a option list \<Rightarrow> 'a option list" where
  \<comment> \<open>\<open>.fillna(method='ffill')\<close> on one column\<close>
  "ffill col = ffill_from None col"


section \<open>Hourly dataset\<close>

text \<open>
  The frame \<open>merged_data\<close> as it stands when the hourly stage starts: indexed by time, with
  its numeric columns, of which a value may be missing. The index is counted in hours, so
  the midnight of day \<open>d\<close> is \<open>24 * d\<close>. The text columns of the articles do not take part
  in a mean and are left out.
\<close>

record frame_row =
  stamp :: int
  c_sentiment :: "real option"
  c_adjusted_sentiment :: "real option"
  c_Close :: "real option"
  c_lagged_sentiment :: "real option"
  c_MA_7_day :: "real option"

definition nanmean :: "real option list \<Rightarrow> real option" where
  \<comment> \<open>the mean of a column skips missing values and is missing when there is no value\<close>
  "nanmean col =
     (let vs = List.map_filter (\<lambda>v. v) col in if vs = [] then None else Some (mean vs))"

definition bucket_mean :: "frame_row list \<Rightarrow> int \<Rightarrow> frame_row" where
  "bucket_mean frame h =
     (let rows = filter (\<lambda>r. stamp r = h) frame
      in \<lparr>stamp = h,
          c_sentiment = nanmean (map c_sentiment rows),
          c_adjusted_sentiment = nanmean (map c_adjusted_sentiment rows),
          c_Close = nanmean (map c_Close rows),
          c_lagged_sentiment = nanmean (map c_lagged_sentiment rows),
          c_MA_7_day = nanmean (map c_MA_7_day rows)\<rparr>)"

definition resample_H_mean :: "frame_row list \<Rightarrow> frame_row list" where
  \<comment> \<open>\<open>.resample('H').mean()\<close>: one bucket per hour from the earliest to the latest index\<close>
  "resample_H_mean frame =
     (if frame = [] then []
      else map (bucket_mean frame)
             [Min (set (map stamp frame)) .. Max (set (map stamp frame))])"

definition ffill_frame :: "frame_row list \<Rightarrow> frame_row list" where
  \<comment> \<open>\<open>.fillna(method='ffill')\<close> on a frame: every column is filled on its own\<close>
  "ffill_frame frame =
     (let s = ffill (map c_sentiment frame);
          a = ffill (map c_adjusted_sentiment frame);
          c = ffill (map c_Close frame);
          l = ffill (map c_lagged_sentiment frame);
          m = ffill (map c_MA_7_day frame)
      in map (\<lambda>i. \<lparr>stamp = stamp (frame ! i), c_sentiment = s ! i,
                    c_adjusted_sentiment = a ! i, c_Close = c ! i,
                    c_lagged_sentiment = l ! i, c_MA_7_day = m ! i\<rparr>)
           [0..<length frame])"

definition shift_back :: "'a option list \<Rightarrow> 'a option list" where
  \<comment> \<open>\<open>.shift(-1)\<close>: every value moves one row up, the last row gets NaN\<close>
  "shift_back col = (if col = [] then [] else tl col @ [None])"

definition gt_nan :: "real option \<Rightarrow> real option \<Rightarrow> bool" where
  \<comment> \<open>\<open>a > b\<close> on floats: a comparison with NaN is false\<close>
  "gt_nan a b = (case a of None \<Rightarrow> False | Some x \<Rightarrow> (case b of None \<Rightarrow> False | Some y \<Rightarrow> y < x))"

definition Movement_col :: "real option list \<Rightarrow> int list" where
  \<comment> \<open>\<open>(Close.shift(-1) > Close).astype(int)\<close>\<close>
  "Movement_col closes =
     map (\<lambda>(nxt, cur). if gt_nan nxt cur then 1 else 0) (zip (shift_back closes) closes)"

record hourly_row = frame_row +
  Movement :: int

definition row_complete :: "hourly_row \<Rightarrow> bool" where
  \<comment> \<open>no column of the row is missing (\<open>Movement\<close> is an integer column)\<close>
  "row_complete r =
     (c_sentiment r \<noteq> None \<and> c_adjusted_sentiment r \<noteq> None \<and> c_Close r \<noteq> None
      \<and> c_lagged_sentiment r \<noteq> None \<and> c_MA_7_day r \<noteq> None)"

definition label_hourly :: "frame_row list \<Rightarrow> hourly_row list" where
  \<comment> \<open>the two assignments: the label \<open>Movement\<close> and the lag recomputed on the hourly
      series\<close>
  "label_hourly hourly =
     (let movement = Movement_col (map c_Close hourly);
          lagged = shift1 (map c_adjusted_sentiment hourly)
      in map (\<lambda>i. \<lparr>stamp = stamp (hourly ! i), c_sentiment = c_sentiment (hourly ! i),
                    c_adjusted_sentiment = c_adjusted_sentiment (hourly ! i),
                    c_Close = c_Close (hourly ! i),
                    c_lagged_sentiment = lagged ! i,
                    c_MA_7_day = c_MA_7_day (hourly ! i),
                    Movement = movement ! i\<rparr>)
           [0..<length hourly])"

definition merged_data_hourly :: "frame_row list \<Rightarrow> hourly_row list" where
  \<comment> \<open>the four statements that build the hourly dataset: resampling with forward fill,
      the two assignments, and \<open>dropna\<close>, which keeps the rows without a missing value\<close>
  "merged_data_hourly merged_data =
     filter row_complete (label_hourly (ffill_frame (resample_H_mean merged_data)))"

section \<open>Properties of the text primitives\<close>

lemma lower_char_idem: "lower_char (lower_char c) = lower_char c"
  by (auto simp: lower_char_def isupper_def Let_def)

lemma lower_idem: "lower (lower s) = lower s"
  by (simp add: lower_def lower_char_idem)

section \<open>Properties of the Financial Sentiment Adjuster\<close>

lemma count_loop_counts:
  "count_loop P N ws (p, n) = (p + pos_count P ws, n + neg_count P N ws)"
  by (induction ws arbitrary: p n) (simp_all add: pos_count_def neg_count_def)

lemma adjustment_formula:
  "financial_sentiment_adjustment P N text s =
     clamp (- 1) 1
       (s + real_of_int (pos_count P (split (lower text))
                         - neg_count P N (split (lower text))) * (1 / 10))"
  by (simp add: financial_sentiment_adjustment_def Let_def count_loop_counts clamp_def)

lemma clamp_unit_lower: "- 1 \<le> clamp (- 1) 1 x"
  by (simp add: clamp_def)

lemma clamp_unit_upper: "clamp (- 1) 1 x \<le> 1"
  by (simp add: clamp_def)

lemma clamp_id: "lo \<le> x \<Longrightarrow> x \<le> hi \<Longrightarrow> clamp lo hi x = x"
  by (simp add: clamp_def)

text \<open>
  Claim C1, as stated: the adjuster returns the clamped sum for counts taken on the
  whitespace split of the text with no further normalization, and a text with no lexicon
  hit returns any base score unchanged. Both fail on the code: the function lower-cases
  the text before splitting, so the token \<open>GROWTH\<close> hits the positive word
  \<open>growth\<close>; and a base score of 5 with no hits is clamped to 1.
\<close>

theorem C1_counterexample:
  "financial_sentiment_adjustment {''growth''} {} ''GROWTH'' 0
     \<noteq> spec_adjuster {''growth''} {} ''GROWTH'' 0
   \<and> pos_count {''growth''} (split ''flat'') = 0
   \<and> neg_count {''growth''} {} (split ''flat'') = 0
   \<and> financial_sentiment_adjustment {''growth''} {} ''flat'' 5 \<noteq> 5"
  by code_simp

text \<open>
  Claim C1, amended: for every text and every base score the adjuster returns
  \<open>clamp (base_score + (pos_count - neg_count) * 0.1)\<close> on \<open>[-1, 1]\<close>, where the counts
  are taken on the tokens of the whitespace split of the lower-cased text, a token being
  checked against the positive set first. With base score 0, two positive and no negative
  hits the result is 0.2, and with no hits a base score within \<open>[-1, 1]\<close> is returned
  unchanged.
\<close>

theorem C1_adjuster_formula:
  "financial_sentiment_adjustment P N text s =
     clamp (- 1) 1
       (s + real_of_int (pos_count P (split (lower text))
                         - neg_count P N (split (lower text))) * (1 / 10))
   \<and> (pos_count P (split (lower text)) = 2 \<and> neg_count P N (split (lower text)) = 0
        \<longrightarrow> financial_sentiment_adjustment P N text 0 = 2 / 10)
   \<and> (pos_count P (split (lower text)) = 0 \<and> neg_count P N (split (lower text)) = 0
        \<and> - 1 \<le> s \<and> s \<le> 1
        \<longrightarrow> financial_sentiment_adjustment P N text s = s)"
proof (intro conjI impI)
  show "financial_sentiment_adjustment P N text s =
     clamp (- 1) 1
       (s + real_of_int (pos_count P (split (lower text))
                         - neg_count P N (split (lower text))) * (1 / 10))"
    by (rule adjustment_formula)
next
  assume "pos_count P (split (lower text)) = 2 \<and> neg_count P N (split (lower text)) = 0"
  then show "financial_sentiment_adjustment P N text 0 = 2 / 10"
    by (simp add: adjustment_formula clamp_def)
next
  assume "pos_count P (split (lower text)) = 0 \<and> neg_count P N (split (lower text)) = 0
        \<and> - 1 \<le> s \<and> s \<le> 1"
  then show "financial_sentiment_adjustment P N text s = s"
    by (simp add: adjustment_formula clamp_id)
qed

theorem C1_adjuster_formula_witness:
  "financial_sentiment_adjustment {''growth'', ''profit''} {''loss''} ''Growth and PROFIT'' 0
     = 2 / 10
   \<and> financial_sentiment_adjustment {''growth'', ''profit''} {''loss''} ''nothing here'' (1 / 2)
     = 1 / 2"
proof -
  have two: "pos_count {''growth'', ''profit''} (split (lower ''Growth and PROFIT'')) = 2
      \<and> neg_count {''growth'', ''profit''} {''loss''} (split (lower ''Growth and PROFIT'')) = 0"
    by code_simp
  have none: "pos_count {''growth'', ''profit''} (split (lower ''nothing here'')) = 0
      \<and> neg_count {''growth'', ''profit''} {''loss''} (split (lower ''nothing here'')) = 0
      \<and> - 1 \<le> (1 / 2 :: real) \<and> (1 / 2 :: real) \<le> 1"
    by code_simp
  from two
    C1_adjuster_formula [of "{''growth'', ''profit''}" "{''loss''}" "''Growth and PROFIT''" 0]
  have a: "financial_sentiment_adjustment {''growth'', ''profit''} {''loss''}
      ''Growth and PROFIT'' 0 = 2 / 10"
    by blast
  from none
    C1_adjuster_formula [of "{''growth'', ''profit''}" "{''loss''}" "''nothing here''" "1 / 2"]
  have b: "financial_sentiment_adjustment {''growth'', ''profit''} {''loss''}
      ''nothing here'' (1 / 2) = 1 / 2"
    by blast
  from a b show ?thesis by blast
qed

text \<open>
  Claim C2: for every base score in \<open>[-1, 1]\<close> and every text the adjuster's output lies in
  \<open>[-1, 1]\<close>; with base score 0.9, no positive and three negative hits the output is
  \<open>max (-1) (0.9 - 0.3) = 0.6\<close>.
\<close>

theorem C2_adjuster_range:
  "(- 1 \<le> s \<and> s \<le> 1 \<longrightarrow>
      - 1 \<le> financial_sentiment_adjustment P N text s
      \<and> financial_sentiment_adjustment P N text s \<le> 1)
   \<and> (pos_count P (split (lower text)) = 0 \<and> neg_count P N (split (lower text)) = 3 \<longrightarrow>
      financial_sentiment_adjustment P N text (9 / 10) = max (- 1) (9 / 10 - 3 / 10)
      \<and> financial_sentiment_adjustment P N text (9 / 10) = 6 / 10)"
proof (intro conjI impI)
  show "- 1 \<le> financial_sentiment_adjustment P N text s"
    unfolding adjustment_formula by (rule clamp_unit_lower)
  show "financial_sentiment_adjustment P N text s \<le> 1"
    unfolding adjustment_formula by (rule clamp_unit_upper)
next
  assume h: "pos_count P (split (lower text)) = 0 \<and> neg_count P N (split (lower text)) = 3"
  then show "financial_sentiment_adjustment P N text (9 / 10) = max (- 1) (9 / 10 - 3 / 10)"
    by (simp add: adjustment_formula clamp_def)
  from h show "financial_sentiment_adjustment P N text (9 / 10) = 6 / 10"
    by (simp add: adjustment_formula clamp_def)
qed

theorem C2_adjuster_range_witness:
  "- 1 \<le> financial_sentiment_adjustment {''growth''} {''loss'', ''default''}
       ''Loss after DEFAULT and loss'' (9 / 10)
   \<and> financial_sentiment_adjustment {''growth''} {''loss'', ''default''}
       ''Loss after DEFAULT and loss'' (9 / 10) \<le> 1
   \<and> financial_sentiment_adjustment {''growth''} {''loss'', ''default''}
       ''Loss after DEFAULT and loss'' (9 / 10) = 6 / 10"
proof -
  have range: "- 1 \<le> (9 / 10 :: real) \<and> (9 / 10 :: real) \<le> 1"
    by simp
  have hits: "pos_count {''growth''} (split (lower ''Loss after DEFAULT and loss'')) = 0
      \<and> neg_count {''growth''} {''loss'', ''default''}
          (split (lower ''Loss after DEFAULT and loss'')) = 3"
    by code_simp
  from range hits
    C2_adjuster_range [of "9 / 10" "{''growth''}" "{''loss'', ''default''}"
      "''Loss after DEFAULT and loss''"]
  show ?thesis by blast
qed

text \<open>
  Claim C10: the adjuster is case-insensitive in its text argument, since it lower-cases
  the text itself: the result on a text and on its lower-cased form are equal, for every
  base score and every lexicon.
\<close>

theorem C10_adjuster_case_insensitive:
  "financial_sentiment_adjustment P N text s
     = financial_sentiment_adjustment P N (lower text) s"
  by (simp add: financial_sentiment_adjustment_def lower_idem)

section \<open>Properties of the Text Normalizer\<close>

lemma split_with_from_tokens:
  "w \<in> set (split_with_from space cur s) \<Longrightarrow> \<forall>c\<in>set cur. \<not> space c \<Longrightarrow>
     w \<noteq> [] \<and> (\<forall>c\<in>set w. (c \<in> set cur \<or> c \<in> set s) \<and> \<not> space c)"
proof (induction s arbitrary: cur)
  case Nil
  then show ?case by (auto split: if_splits)
next
  case (Cons a s)
  show ?case
  proof (cases "space a")
    case True
    with Cons.prems have "w = cur \<and> cur \<noteq> [] \<or> w \<in> set (split_with_from space [] s)"
      by (auto split: if_splits)
    then show ?thesis
    proof
      assume "w = cur \<and> cur \<noteq> []"
      with Cons.prems(2) show ?thesis by auto
    next
      assume "w \<in> set (split_with_from space [] s)"
      from Cons.IH [OF this] show ?thesis by auto
    qed
  next
    case False
    with Cons.prems have "w \<in> set (split_with_from space (cur @ [a]) s)" by simp
    moreover from False Cons.prems(2) have "\<forall>c\<in>set (cur @ [a]). \<not> space c" by auto
    ultimately have
      "w \<noteq> [] \<and> (\<forall>c\<in>set w. (c \<in> set (cur @ [a]) \<or> c \<in> set s) \<and> \<not> space c)"
      by (rule Cons.IH)
    then show ?thesis by auto
  qed
qed

lemma split_with_tokens: "tokenizer_ok space (split_with space) s"
  using split_with_from_tokens [of _ space "[]" s]
  by (auto simp: tokenizer_ok_def split_with_def list_all_iff)

lemma split_with_isspace: "split_with_from isspace cur s = split_from cur s"
  by (induction s arbitrary: cur) simp_all

lemma split_with_from_word:
  "\<forall>c\<in>set w. \<not> space c \<Longrightarrow>
     split_with_from space cur (w @ rest) = split_with_from space (cur @ w) rest"
  by (induction w arbitrary: cur) simp_all

lemma isspace_space: "isspace (CHR '' '')"
  by (simp add: isspace_def)

lemma split_with_from_join:
  assumes "space sp"
  shows "\<forall>w\<in>set ws. w \<noteq> [] \<and> (\<forall>c\<in>set w. \<not> space c) \<Longrightarrow>
           split_with_from space [] (join_with [sp] ws) = ws"
proof (induction ws rule: induct_list012)
  case 1
  then show ?case by simp
next
  case (2 w)
  then have "split_with_from space [] (w @ []) = split_with_from space ([] @ w) []"
    by (intro split_with_from_word) simp
  with 2 show ?case by simp
next
  case (3 w v ws)
  then have "split_with_from space [] (w @ sp # join_with [sp] (v # ws))
      = split_with_from space ([] @ w) (sp # join_with [sp] (v # ws))"
    by (intro split_with_from_word) simp
  with 3 assms show ?case by simp
qed

lemma set_join_with: "set (join_with sep ws) \<subseteq> set sep \<union> \<Union> (set ` set ws)"
  by (induction sep ws rule: join_with.induct) auto

lemma clean_text_tokens:
  assumes "tokenizer_ok (u_isspace U) word_tokenize (re_sub_non_word_space U (u_lower U text))"
      and "u_isspace U (u_space U)"
  shows "split_with (u_isspace U) (clean_text U word_tokenize sw text)
           = filter (\<lambda>word. word \<notin> sw)
               (word_tokenize (re_sub_non_word_space U (u_lower U text)))"
proof -
  let ?toks = "filter (\<lambda>word. word \<notin> sw)
      (word_tokenize (re_sub_non_word_space U (u_lower U text)))"
  from assms(1) have "\<forall>w\<in>set ?toks. w \<noteq> [] \<and> (\<forall>c\<in>set w. \<not> u_isspace U c)"
    by (auto simp: tokenizer_ok_def list_all_iff)
  with assms(2) have "split_with_from (u_isspace U) [] (join_with [u_space U] ?toks) = ?toks"
    by (rule split_with_from_join)
  then show ?thesis
    by (simp add: clean_text_def split_with_def Let_def)
qed

lemma clean_text_chars:
  assumes "tokenizer_ok (u_isspace U) word_tokenize (re_sub_non_word_space U (u_lower U text))"
      and "c \<in> set (clean_text U word_tokenize sw text)"
  shows "c = u_space U
         \<or> (u_isalnum U c \<or> c = u_underscore U) \<and> \<not> u_isspace U c \<and> c \<in> set (u_lower U text)"
proof (cases "c = u_space U")
  case True
  then show ?thesis by simp
next
  case False
  let ?t = "re_sub_non_word_space U (u_lower U text)"
  from assms(2) set_join_with [of "[u_space U]" "filter (\<lambda>word. word \<notin> sw) (word_tokenize ?t)"]
    False
  obtain w where w: "w \<in> set (word_tokenize ?t)" "c \<in> set w"
    by (auto simp: clean_text_def Let_def)
  with assms(1) have "c \<in> set ?t" "\<not> u_isspace U c"
    by (auto simp: tokenizer_ok_def list_all_iff)
  then show ?thesis
    by (auto simp: re_sub_non_word_space_def is_word_char_def)
qed

text \<open>
  Claim C6, as stated: the output of the Text Normalizer contains only lowercase
  alphanumeric characters and single spaces. The class \<open>\w\<close> of the regular expression
  holds the underscore too, which therefore survives: the headline \<open>The A_B\<close> is
  normalized to \<open>a_b\<close>.
\<close>

theorem C6_counterexample:
  "clean_text ascii_tables (split_with isspace) {''the''} ''The A_B'' = ''a_b''
   \<and> \<not> isalnum (CHR ''_'') \<and> CHR ''_'' \<noteq> CHR '' ''"
  by code_simp

text \<open>
  Claim C6, amended: for every input string the output of the Text Normalizer is the
  sequence of its tokens joined by single spaces (no leading, trailing or doubled space);
  every character of a token is an alphanumeric character or an underscore, is no
  whitespace, and is a character of the lower-cased input, so it stands as \<open>str.lower\<close>
  leaves it; none of the tokens is in the stop-word set; and the empty input yields the
  empty output. The tokenizer is any one whose tokens are non-empty, whitespace-free
  pieces of its input and that finds no token in the empty string; of the character tables
  only two facts are used, that the lower-cased empty string is empty and that the space
  is a whitespace character.
\<close>

theorem C6_clean_text_output:
  assumes "tokenizer_ok (u_isspace U) word_tokenize (re_sub_non_word_space U (u_lower U text))"
      and "word_tokenize [] = []"
      and "u_lower U [] = []"
      and "u_isspace U (u_space U)"
  shows "(\<forall>c\<in>set (clean_text U word_tokenize sw text).
            c = u_space U
            \<or> (u_isalnum U c \<or> c = u_underscore U) \<and> \<not> u_isspace U c
              \<and> c \<in> set (u_lower U text))
         \<and> join_with [u_space U] (split_with (u_isspace U) (clean_text U word_tokenize sw text))
             = clean_text U word_tokenize sw text
         \<and> (\<forall>w\<in>set (split_with (u_isspace U) (clean_text U word_tokenize sw text)). w \<notin> sw)
         \<and> clean_text U word_tokenize sw [] = []"
proof (intro conjI ballI)
  fix c assume "c \<in> set (clean_text U word_tokenize sw text)"
  with assms(1) show "c = u_space U
      \<or> (u_isalnum U c \<or> c = u_underscore U) \<and> \<not> u_isspace U c \<and> c \<in> set (u_lower U text)"
    by (rule clean_text_chars)
next
  show "join_with [u_space U] (split_with (u_isspace U) (clean_text U word_tokenize sw text))
      = clean_text U word_tokenize sw text"
    by (simp add: clean_text_tokens [OF assms(1) assms(4)]) (simp add: clean_text_def Let_def)
next
  fix w assume "w \<in> set (split_with (u_isspace U) (clean_text U word_tokenize sw text))"
  then show "w \<notin> sw"
    by (simp add: clean_text_tokens [OF assms(1) assms(4)])
next
  show "clean_text U word_tokenize sw [] = []"
    by (simp add: clean_text_def re_sub_non_word_space_def assms(2) assms(3))
qed

theorem C6_clean_text_output_witness:
  "clean_text ascii_tables (split_with isspace) {''the'', ''of''} ''The Growth, of A_B!''
     = ''growth a_b''
   \<and> join_with '' '' (split_with isspace ''growth a_b'') = ''growth a_b''
   \<and> ''the'' \<notin> set (split_with isspace ''growth a_b'')
   \<and> clean_text ascii_tables (split_with isspace) {''the'', ''of''} [] = []"
proof -
  have out: "clean_text ascii_tables (split_with isspace) {''the'', ''of''}
      ''The Growth, of A_B!'' = ''growth a_b''"
    by code_simp
  have tables: "u_isspace ascii_tables = isspace" "u_space ascii_tables = CHR '' ''"
      "u_lower ascii_tables = lower"
    by (simp_all add: ascii_tables_def)
  have tok: "tokenizer_ok (u_isspace ascii_tables) (split_with isspace)
      (re_sub_non_word_space ascii_tables (u_lower ascii_tables ''The Growth, of A_B!''))"
    unfolding tables by (rule split_with_tokens)
  have nil: "split_with isspace [] = []"
    by (simp add: split_with_def)
  have low: "u_lower ascii_tables [] = []"
    by (simp add: tables lower_def)
  have sp: "u_isspace ascii_tables (u_space ascii_tables)"
    by (simp add: tables isspace_space)
  from C6_clean_text_output [of ascii_tables "split_with isspace" "''The Growth, of A_B!''"
      "{''the'', ''of''}", OF tok nil low sp]
  show ?thesis
    unfolding out tables by blast
qed


section \<open>Properties of the news request\<close>

text \<open>
  Claim C9: on a status code other than 200 the run prints the failure message and exits
  without running anything of the rest of the script; the rest runs if and only if the
  status code is 200. The single request is never repeated: the outcome is a function of
  the one response.
\<close>

theorem C9_non_success_halts:
  "(status_code \<noteq> 200 \<longrightarrow>
      news_request status_code rest = Exited ''Failed to retrieve news:'' status_code)
   \<and> ((\<exists>r. news_request status_code rest = Ran r) \<longleftrightarrow> status_code = 200)
   \<and> (status_code = 200 \<longrightarrow> news_request status_code rest = Ran (rest ()))"
  by (simp add: news_request_def)

theorem C9_non_success_halts_witness:
  "news_request 404 (\<lambda>_. ''metrics'') = Exited ''Failed to retrieve news:'' 404
   \<and> news_request 200 (\<lambda>_. ''metrics'') = Ran ''metrics''"
  using C9_non_success_halts [of 404 "\<lambda>_. ''metrics''"]
    C9_non_success_halts [of 200 "\<lambda>_. ''metrics''"]
  by simp

section \<open>Properties of the Feature Builder\<close>

lemma sum_list_window:
  "k + w \<le> length xs \<Longrightarrow> sum_list (take w (drop k xs)) = (\<Sum>i = k..<k + w. (xs ! i :: real))"
proof -
  assume h: "k + w \<le> length xs"
  from h have len: "length (take w (drop k xs)) = w"
    by simp
  have "sum_list (take w (drop k xs))
      = (\<Sum>i = 0..<length (take w (drop k xs)). take w (drop k xs) ! i)"
    by (rule sum_list_sum_nth)
  also have "\<dots> = (\<Sum>i = 0..<w. take w (drop k xs) ! i)"
    unfolding len ..
  also have "\<dots> = (\<Sum>i = 0..<w. xs ! (k + i))"
    using h by (intro sum.cong) simp_all
  also have "\<dots> = (\<Sum>i = k..<k + w. xs ! i)"
    using sum.shift_bounds_nat_ivl [of "\<lambda>i. xs ! i" 0 k w] by (simp add: add.commute)
  finally show ?thesis .
qed

lemma rolling_mean_length: "length (rolling_mean w col) = length col"
  by (simp add: rolling_mean_def)

lemma rolling_mean_early: "t < length col \<Longrightarrow> t + 1 < w \<Longrightarrow> rolling_mean w col ! t = None"
  by (simp add: rolling_mean_def)

lemma rolling_mean_full:
  assumes "t < length col" "w \<le> t + 1"
  shows "rolling_mean w col ! t = Some ((\<Sum>i = t + 1 - w..<t + 1. col ! i) / real w)"
proof -
  from assms have "t + 1 - w + w \<le> length col" by simp
  from sum_list_window [OF this] assms show ?thesis
    by (simp add: rolling_mean_def)
qed

text \<open>
  Claim C7: for every row \<open>t\<close> of the merged series the 7-row moving average is undefined
  for \<open>t < 6\<close> and is otherwise the arithmetic mean of \<open>Close\<close> over rows \<open>t - 6\<close> to
  \<open>t\<close>; for the closes 1 to 8 it is 4 at index 6, 5 at index 7 and undefined before.
\<close>

theorem C7_rolling_mean_7:
  "length (MA_7_day merged_data) = length merged_data
   \<and> (t < length merged_data \<and> t < 6 \<longrightarrow> MA_7_day merged_data ! t = None)
   \<and> (t < length merged_data \<and> 6 \<le> t \<longrightarrow>
        MA_7_day merged_data ! t
          = Some ((\<Sum>i = t - 6..<t + 1. Close (snd (merged_data ! i))) / 7))
   \<and> (map (\<lambda>m. Close (snd m)) merged_data = [1, 2, 3, 4, 5, 6, 7, 8] \<longrightarrow>
        MA_7_day merged_data = [None, None, None, None, None, None, Some 4, Some 5])"
proof (intro conjI impI)
  show "length (MA_7_day merged_data) = length merged_data"
    by (simp add: MA_7_day_def rolling_mean_length)
next
  assume "t < length merged_data \<and> t < 6"
  then show "MA_7_day merged_data ! t = None"
    by (simp add: MA_7_day_def rolling_mean_early)
next
  assume h: "t < length merged_data \<and> 6 \<le> t"
  then have "rolling_mean 7 (map (\<lambda>m. Close (snd m)) merged_data) ! t
      = Some ((\<Sum>i = t + 1 - 7..<t + 1. map (\<lambda>m. Close (snd m)) merged_data ! i) / real 7)"
    by (intro rolling_mean_full) simp_all
  moreover have "(\<Sum>i = t + 1 - 7..<t + 1. map (\<lambda>m. Close (snd m)) merged_data ! i)
      = (\<Sum>i = t - 6..<t + 1. Close (snd (merged_data ! i)))"
    using h by (intro sum.cong) simp_all
  ultimately show "MA_7_day merged_data ! t
      = Some ((\<Sum>i = t - 6..<t + 1. Close (snd (merged_data ! i))) / 7)"
    by (simp add: MA_7_day_def)
next
  assume "map (\<lambda>m. Close (snd m)) merged_data = [1, 2, 3, 4, 5, 6, 7, 8]"
  moreover have "rolling_mean 7 [1, 2, 3, 4, 5, 6, 7, 8]
      = [None, None, None, None, None, None, Some 4, Some 5]"
    by code_simp
  ultimately show "MA_7_day merged_data = [None, None, None, None, None, None, Some 4, Some 5]"
    by (simp add: MA_7_day_def)
qed


theorem C7_rolling_mean_7_witness:
  "MA_7_day (map (\<lambda>k. (\<lparr>title = ''t'', publishedAt = int k, cleaned_title = ''t'',
                           sentiment = 0, adjusted_sentiment = 0\<rparr>,
                         \<lparr>Date = int k, Close = real k\<rparr>)) [1..<9])
     = [None, None, None, None, None, None, Some 4, Some 5]"
proof -
  let ?rows = "map (\<lambda>k. (\<lparr>title = ''t'', publishedAt = int k, cleaned_title = ''t'',
                           sentiment = 0, adjusted_sentiment = 0\<rparr>,
                         \<lparr>Date = int k, Close = real k\<rparr>)) [1..<9]"
  have "map (\<lambda>m. Close (snd m)) ?rows = [1, 2, 3, 4, 5, 6, 7, 8]"
    by code_simp
  with C7_rolling_mean_7 [of ?rows 7] show ?thesis
    by blast
qed


section \<open>Properties of the Temporal Aggregator\<close>

lemma add_to_group_keys: "fst ` set (add_to_group k v groups) = insert k (fst ` set groups)"
proof (induction k v groups rule: add_to_group.induct)
  case (1 k v)
  show ?case by simp
next
  case (2 k v k' vs groups)
  then show ?case by (cases "k = k'") auto
qed

lemma add_to_group_distinct:
  "distinct (map fst groups) \<Longrightarrow> distinct (map fst (add_to_group k v groups))"
proof (induction groups)
  case Nil
  then show ?case by simp
next
  case (Cons g groups)
  obtain k' vs where g: "g = (k', vs)" by (cases g)
  show ?case
  proof (cases "k = k'")
    case True
    with Cons.prems g show ?thesis by simp
  next
    case False
    from Cons have "distinct (map fst (add_to_group k v groups))" by simp
    moreover from Cons.prems g False have "k' \<notin> fst ` set (add_to_group k v groups)"
      by (simp add: add_to_group_keys)
    ultimately show ?thesis using g False by simp
  qed
qed

lemma add_to_group_values:
  "group_values (add_to_group k v groups) k'
     = (if k' = k then group_values groups k @ [v] else group_values groups k')"
  by (induction groups) (auto simp: group_values_def)

lemma fold_groups_keys:
  "fst ` set (foldl (\<lambda>groups r. add_to_group (publishedAt r) (adjusted_sentiment r) groups)
                gs rows)
     = fst ` set gs \<union> publishedAt ` set rows"
  by (induction rows arbitrary: gs) (simp_all add: add_to_group_keys)

lemma fold_groups_distinct:
  "distinct (map fst gs) \<Longrightarrow>
     distinct (map fst
       (foldl (\<lambda>groups r. add_to_group (publishedAt r) (adjusted_sentiment r) groups) gs rows))"
  by (induction rows arbitrary: gs) (simp_all add: add_to_group_distinct)

lemma fold_groups_values:
  "group_values
       (foldl (\<lambda>groups r. add_to_group (publishedAt r) (adjusted_sentiment r) groups) gs rows) k
     = group_values gs k @ map adjusted_sentiment (filter (\<lambda>r. publishedAt r = k) rows)"
  by (induction rows arbitrary: gs) (simp_all add: add_to_group_values)

lemma groups_of_keys: "fst ` set (groups_of rows) = publishedAt ` set rows"
  by (simp add: groups_of_def fold_groups_keys)

lemma groups_of_distinct: "distinct (map fst (groups_of rows))"
  by (simp add: groups_of_def fold_groups_distinct)

lemma groups_of_values:
  assumes "(k, vs) \<in> set (groups_of rows)"
  shows "vs = map adjusted_sentiment (filter (\<lambda>r. publishedAt r = k) rows)"
proof -
  from assms groups_of_distinct have "map_of (groups_of rows) k = Some vs"
    by simp
  then have "group_values (groups_of rows) k = vs"
    by (simp add: group_values_def)
  moreover have "group_values (groups_of rows) k
      = group_values [] k @ map adjusted_sentiment (filter (\<lambda>r. publishedAt r = k) rows)"
    unfolding groups_of_def by (rule fold_groups_values)
  moreover have "group_values [] k = []"
    by (simp add: group_values_def)
  ultimately show ?thesis by simp
qed

lemma daily_days: "map day (daily_adjusted_sentiment rows) = map fst (sort_key fst (groups_of rows))"
  by (simp add: daily_adjusted_sentiment_def case_prod_beta comp_def)

lemma daily_sorted: "sorted (map day (daily_adjusted_sentiment rows))"
  by (simp add: daily_days)

lemma daily_distinct: "distinct (map day (daily_adjusted_sentiment rows))"
proof -
  from groups_of_distinct [of rows]
  have "distinct (groups_of rows)" "inj_on fst (set (groups_of rows))"
    by (simp_all add: distinct_map)
  then have "distinct (map fst (sort_key fst (groups_of rows)))"
    by (simp add: distinct_map)
  then show ?thesis by (simp add: daily_days)
qed

lemma daily_set: "set (map day (daily_adjusted_sentiment rows)) = publishedAt ` set rows"
  by (simp add: daily_days groups_of_keys)

lemma daily_mean:
  assumes "d \<in> set (daily_adjusted_sentiment rows)"
  shows "mean_adjusted_sentiment d
           = mean (map adjusted_sentiment (filter (\<lambda>r. publishedAt r = day d) rows))"
proof -
  from assms obtain k vs where kv: "(k, vs) \<in> set (groups_of rows)"
      and d: "d = \<lparr>day = k, mean_adjusted_sentiment = mean vs\<rparr>"
    by (auto simp: daily_adjusted_sentiment_def)
  from groups_of_values [OF kv] d show ?thesis by simp
qed

lemma distinct_singleton_set:
  assumes "distinct xs" "set xs = {k}"
  shows "xs = [k]"
proof (cases xs)
  case Nil
  with assms(2) show ?thesis by simp
next
  case (Cons x ys)
  with assms have "x = k" and "k \<notin> set ys" and "\<forall>y\<in>set ys. y = k"
    by auto
  then have "ys = []" by (cases ys) auto
  with Cons \<open>x = k\<close> show ?thesis by simp
qed

lemma daily_single_day:
  assumes "rows \<noteq> []" "\<forall>r\<in>set rows. publishedAt r = k"
  shows "daily_adjusted_sentiment rows
           = [\<lparr>day = k, mean_adjusted_sentiment = mean (map adjusted_sentiment rows)\<rparr>]"
proof -
  let ?D = "daily_adjusted_sentiment rows"
  have "set (map day ?D) = publishedAt ` set rows"
    by (rule daily_set)
  also from assms have "\<dots> = {k}"
    by (cases rows) auto
  finally have "set (map day ?D) = {k}" .
  with daily_distinct [of rows] have "map day ?D = [k]"
    by (rule distinct_singleton_set)
  then obtain d where D: "?D = [d]" and dk: "day d = k"
    by auto
  then have "d \<in> set ?D" by simp
  from daily_mean [OF this] dk assms(2)
  have "mean_adjusted_sentiment d = mean (map adjusted_sentiment rows)"
    by (simp add: filter_id_conv)
  with dk D show ?thesis by simp
qed


text \<open>
  Claim C8: for every sequence of scored articles the Temporal Aggregator yields one row
  per calendar date that occurs among the articles (and no other date), the rows ordered by
  date, each holding the arithmetic mean of the adjusted sentiment of the articles of that
  date; articles of one date with the values 0.2, -0.4 and 0.6 aggregate to
  \<open>2/15 = 0.1333...\<close>.
\<close>

theorem C8_daily_mean:
  "sorted (map day (daily_adjusted_sentiment rows))
   \<and> distinct (map day (daily_adjusted_sentiment rows))
   \<and> set (map day (daily_adjusted_sentiment rows)) = publishedAt ` set rows
   \<and> (\<forall>d\<in>set (daily_adjusted_sentiment rows).
         mean_adjusted_sentiment d
           = mean (map adjusted_sentiment (filter (\<lambda>r. publishedAt r = day d) rows)))
   \<and> ((\<forall>r\<in>set rows. publishedAt r = k)
        \<and> map adjusted_sentiment rows = [2 / 10, - 4 / 10, 6 / 10]
        \<longrightarrow> daily_adjusted_sentiment rows = [\<lparr>day = k, mean_adjusted_sentiment = 2 / 15\<rparr>])"
proof (intro conjI ballI impI)
  show "sorted (map day (daily_adjusted_sentiment rows))"
    by (rule daily_sorted)
  show "distinct (map day (daily_adjusted_sentiment rows))"
    by (rule daily_distinct)
  show "set (map day (daily_adjusted_sentiment rows)) = publishedAt ` set rows"
    by (rule daily_set)
next
  fix d assume "d \<in> set (daily_adjusted_sentiment rows)"
  then show "mean_adjusted_sentiment d
      = mean (map adjusted_sentiment (filter (\<lambda>r. publishedAt r = day d) rows))"
    by (rule daily_mean)
next
  assume h: "(\<forall>r\<in>set rows. publishedAt r = k)
      \<and> map adjusted_sentiment rows = [2 / 10, - 4 / 10, 6 / 10]"
  then have "rows \<noteq> []" by auto
  with h have "daily_adjusted_sentiment rows
      = [\<lparr>day = k, mean_adjusted_sentiment = mean (map adjusted_sentiment rows)\<rparr>]"
    by (intro daily_single_day) simp_all
  with h show "daily_adjusted_sentiment rows = [\<lparr>day = k, mean_adjusted_sentiment = 2 / 15\<rparr>]"
    by (simp add: mean_def)
qed

theorem C8_daily_mean_witness:
  "daily_adjusted_sentiment
     [\<lparr>title = ''a'', publishedAt = 20, cleaned_title = ''a'', sentiment = 0,
        adjusted_sentiment = 2 / 10\<rparr>,
      \<lparr>title = ''b'', publishedAt = 20, cleaned_title = ''b'', sentiment = 0,
        adjusted_sentiment = - 4 / 10\<rparr>,
      \<lparr>title = ''c'', publishedAt = 20, cleaned_title = ''c'', sentiment = 0,
        adjusted_sentiment = 6 / 10\<rparr>]
     = [\<lparr>day = 20, mean_adjusted_sentiment = 2 / 15\<rparr>]"
proof -
  let ?rows = "[\<lparr>title = ''a'', publishedAt = 20, cleaned_title = ''a'', sentiment = 0,
        adjusted_sentiment = 2 / 10\<rparr>,
      \<lparr>title = ''b'', publishedAt = 20, cleaned_title = ''b'', sentiment = 0,
        adjusted_sentiment = - 4 / 10\<rparr>,
      \<lparr>title = ''c'', publishedAt = 20, cleaned_title = ''c'', sentiment = 0,
        adjusted_sentiment = 6 / 10\<rparr>]"
  have "(\<forall>r\<in>set ?rows. publishedAt r = 20)
      \<and> map adjusted_sentiment ?rows = [2 / 10, - 4 / 10, 6 / 10]"
    by simp
  with C8_daily_mean [of ?rows 20] show ?thesis
    by blast
qed

section \<open>Properties of the merge\<close>

lemma pd_merge_set:
  "set (pd_merge news_df stock_data)
     = {(n, p). n \<in> set news_df \<and> p \<in> set stock_data \<and> Date p = publishedAt n}"
  by (auto simp: pd_merge_def)

lemma filter_singleton_distinct:
  "distinct (map f xs) \<Longrightarrow> k \<in> f ` set xs \<Longrightarrow> length (filter (\<lambda>x. f x = k) xs) = 1"
proof (induction xs)
  case Nil
  then show ?case by simp
next
  case (Cons x xs)
  show ?case
  proof (cases "f x = k")
    case True
    with Cons.prems have "\<forall>y\<in>set xs. f y \<noteq> k" by (force simp: image_iff)
    then have "filter (\<lambda>x. f x = k) xs = []" by (simp add: filter_empty_conv)
    with True show ?thesis by simp
  next
    case False
    with Cons show ?thesis by auto
  qed
qed

lemma pd_merge_left_rows:
  assumes "distinct (map Date stock_data)"
  shows "map fst (pd_merge news_df stock_data)
           = filter (\<lambda>n. publishedAt n \<in> Date ` set stock_data) news_df"
proof (induction news_df)
  case Nil
  show ?case by (simp add: pd_merge_def)
next
  case (Cons n news_df)
  show ?case
  proof (cases "publishedAt n \<in> Date ` set stock_data")
    case True
    from filter_singleton_distinct [OF assms True]
    obtain p where "filter (\<lambda>p. Date p = publishedAt n) stock_data = [p]"
      by (auto simp: length_Suc_conv)
    with True Cons show ?thesis by (simp add: pd_merge_def)
  next
    case False
    then have "filter (\<lambda>p. Date p = publishedAt n) stock_data = []"
      by (force simp: filter_empty_conv image_iff)
    with False Cons show ?thesis by (simp add: pd_merge_def)
  qed
qed


lemma pd_merge_count_date:
  assumes "distinct (map Date stock_data)"
  shows "length (filter (\<lambda>m. publishedAt (fst m) = k) (pd_merge news_df stock_data))
           = (if k \<in> Date ` set stock_data
              then length (filter (\<lambda>n. publishedAt n = k) news_df) else 0)"
proof -
  have "length (filter (\<lambda>m. publishedAt (fst m) = k) (pd_merge news_df stock_data))
      = length (filter (\<lambda>n. publishedAt n = k) (map fst (pd_merge news_df stock_data)))"
    by (simp add: filter_map comp_def)
  also have "\<dots> = length (filter (\<lambda>n. publishedAt n = k)
      (filter (\<lambda>n. publishedAt n \<in> Date ` set stock_data) news_df))"
    by (simp add: pd_merge_left_rows [OF assms])
  also have "\<dots> = length (filter (\<lambda>n. publishedAt n \<in> Date ` set stock_data \<and> publishedAt n = k)
      news_df)"
    by simp
  also have "\<dots> = (if k \<in> Date ` set stock_data
      then length (filter (\<lambda>n. publishedAt n = k) news_df) else 0)"
  proof (cases "k \<in> Date ` set stock_data")
    case True
    then have "filter (\<lambda>n. publishedAt n \<in> Date ` set stock_data \<and> publishedAt n = k) news_df
        = filter (\<lambda>n. publishedAt n = k) news_df"
      by (intro filter_cong) auto
    with True show ?thesis by simp
  next
    case False
    then have "filter (\<lambda>n. publishedAt n \<in> Date ` set stock_data \<and> publishedAt n = k) news_df
        = []"
      by (auto simp: filter_empty_conv)
    with False show ?thesis by simp
  qed
  finally show ?thesis .
qed

lemma pd_merge_count_article:
  assumes "distinct (map Date stock_data)"
  shows "length (filter (\<lambda>m. fst m = n) (pd_merge news_df stock_data))
           = (if publishedAt n \<in> Date ` set stock_data
              then length (filter (\<lambda>a. a = n) news_df) else 0)"
proof -
  have "length (filter (\<lambda>m. fst m = n) (pd_merge news_df stock_data))
      = length (filter (\<lambda>a. a = n) (map fst (pd_merge news_df stock_data)))"
    by (simp add: filter_map comp_def)
  also have "\<dots> = length (filter (\<lambda>a. publishedAt a \<in> Date ` set stock_data \<and> a = n) news_df)"
    by (simp add: pd_merge_left_rows [OF assms])
  also have "\<dots> = (if publishedAt n \<in> Date ` set stock_data
      then length (filter (\<lambda>a. a = n) news_df) else 0)"
  proof (cases "publishedAt n \<in> Date ` set stock_data")
    case True
    then have "filter (\<lambda>a. publishedAt a \<in> Date ` set stock_data \<and> a = n) news_df
        = filter (\<lambda>a. a = n) news_df"
      by (intro filter_cong) auto
    with True show ?thesis by simp
  next
    case False
    then have "filter (\<lambda>a. publishedAt a \<in> Date ` set stock_data \<and> a = n) news_df = []"
      by (auto simp: filter_empty_conv)
    with False show ?thesis by simp
  qed
  finally show ?thesis .
qed

text \<open>
  Claim C4, as stated: the merged dataset joins the per-date mean series with the prices,
  so a date occurs in at most one merged row, which carries the date's mean adjusted
  sentiment. The code joins the per-article frame \<open>news_df\<close> instead (the per-date series is
  computed and not used): two articles of day 20 with the values 0.2 and 0.6 give two
  merged rows of day 20 with these values, none with the mean 0.4.
\<close>

theorem C4_counterexample:
  "map (\<lambda>m. (publishedAt (fst m), adjusted_sentiment (fst m), Close (snd m)))
     (pd_merge
        [\<lparr>title = ''a'', publishedAt = 20, cleaned_title = ''a'', sentiment = 0,
           adjusted_sentiment = 2 / 10\<rparr>,
         \<lparr>title = ''b'', publishedAt = 20, cleaned_title = ''b'', sentiment = 0,
           adjusted_sentiment = 6 / 10\<rparr>]
        [\<lparr>Date = 20, Close = 100\<rparr>])
     = [(20, 2 / 10, 100), (20, 6 / 10, 100)]
   \<and> daily_adjusted_sentiment
        [\<lparr>title = ''a'', publishedAt = 20, cleaned_title = ''a'', sentiment = 0,
           adjusted_sentiment = 2 / 10\<rparr>,
         \<lparr>title = ''b'', publishedAt = 20, cleaned_title = ''b'', sentiment = 0,
           adjusted_sentiment = 6 / 10\<rparr>]
     = [\<lparr>day = 20, mean_adjusted_sentiment = 4 / 10\<rparr>]"
  by code_simp

text \<open>
  Claim C4, amended: the merged dataset is the inner join of the per-article rows with the
  daily price series on date: every merged record pairs an article with a price row of the
  same date, so its date is present in both sources, and a row present in one source only
  never appears. With one price row per date, an article whose date has a price occurs in
  the merged rows as often as among the articles, with its own adjusted sentiment, so that
  a date that has a price occurs in as many merged rows as it has articles.
\<close>

theorem C4_merge_inner_join:
  "(\<forall>m\<in>set (pd_merge news_df stock_data).
      fst m \<in> set news_df \<and> snd m \<in> set stock_data \<and> publishedAt (fst m) = Date (snd m))
   \<and> (\<forall>n\<in>set news_df. publishedAt n \<notin> Date ` set stock_data
         \<longrightarrow> n \<notin> fst ` set (pd_merge news_df stock_data))
   \<and> (\<forall>p\<in>set stock_data. Date p \<notin> publishedAt ` set news_df
         \<longrightarrow> p \<notin> snd ` set (pd_merge news_df stock_data))
   \<and> (distinct (map Date stock_data) \<longrightarrow>
        length (filter (\<lambda>m. fst m = a) (pd_merge news_df stock_data))
          = (if publishedAt a \<in> Date ` set stock_data
             then length (filter (\<lambda>n. n = a) news_df) else 0))
   \<and> (distinct (map Date stock_data) \<longrightarrow>
        length (filter (\<lambda>m. publishedAt (fst m) = k) (pd_merge news_df stock_data))
          = (if k \<in> Date ` set stock_data
             then length (filter (\<lambda>n. publishedAt n = k) news_df) else 0))"
proof (intro conjI ballI impI)
  fix m assume "m \<in> set (pd_merge news_df stock_data)"
  then show "fst m \<in> set news_df" "snd m \<in> set stock_data" "publishedAt (fst m) = Date (snd m)"
    by (auto simp: pd_merge_set)
next
  fix n assume "n \<in> set news_df" "publishedAt n \<notin> Date ` set stock_data"
  then show "n \<notin> fst ` set (pd_merge news_df stock_data)"
    by (force simp: pd_merge_set image_iff)
next
  fix p assume "p \<in> set stock_data" "Date p \<notin> publishedAt ` set news_df"
  then show "p \<notin> snd ` set (pd_merge news_df stock_data)"
    by (force simp: pd_merge_set image_iff)
next
  assume "distinct (map Date stock_data)"
  then show "length (filter (\<lambda>m. fst m = a) (pd_merge news_df stock_data))
      = (if publishedAt a \<in> Date ` set stock_data
         then length (filter (\<lambda>n. n = a) news_df) else 0)"
    by (rule pd_merge_count_article)
next
  assume "distinct (map Date stock_data)"
  then show "length (filter (\<lambda>m. publishedAt (fst m) = k) (pd_merge news_df stock_data))
      = (if k \<in> Date ` set stock_data
         then length (filter (\<lambda>n. publishedAt n = k) news_df) else 0)"
    by (rule pd_merge_count_date)
qed

theorem C4_merge_inner_join_witness:
  "length (filter (\<lambda>m. publishedAt (fst m) = 20)
     (pd_merge
        [\<lparr>title = ''a'', publishedAt = 20, cleaned_title = ''a'', sentiment = 0,
           adjusted_sentiment = 2 / 10\<rparr>,
         \<lparr>title = ''b'', publishedAt = 20, cleaned_title = ''b'', sentiment = 0,
           adjusted_sentiment = 6 / 10\<rparr>,
         \<lparr>title = ''c'', publishedAt = 22, cleaned_title = ''c'', sentiment = 0,
           adjusted_sentiment = 1 / 10\<rparr>]
        [\<lparr>Date = 20, Close = 100\<rparr>, \<lparr>Date = 21, Close = 101\<rparr>])) = 2"
proof -
  let ?news = "[\<lparr>title = ''a'', publishedAt = 20, cleaned_title = ''a'', sentiment = 0,
           adjusted_sentiment = 2 / 10\<rparr>,
         \<lparr>title = ''b'', publishedAt = 20, cleaned_title = ''b'', sentiment = 0,
           adjusted_sentiment = 6 / 10\<rparr>,
         \<lparr>title = ''c'', publishedAt = 22, cleaned_title = ''c'', sentiment = 0,
           adjusted_sentiment = 1 / 10\<rparr>]"
  let ?stock = "[\<lparr>Date = 20, Close = 100\<rparr>, \<lparr>Date = 21, Close = 101\<rparr>]"
  have d: "distinct (map Date ?stock)"
    by simp
  have "(if (20::int) \<in> Date ` set ?stock
         then length (filter (\<lambda>n. publishedAt n = 20) ?news) else 0) = 2"
    by simp
  with d C4_merge_inner_join [of ?news ?stock _ 20] show ?thesis
    by simp
qed


section \<open>Properties of the lag column\<close>

lemma shift1_length: "length (shift1 col) = length col"
  by (cases col) (simp_all add: shift1_def)

lemma shift1_first: "col \<noteq> [] \<Longrightarrow> shift1 col ! 0 = None"
  by (simp add: shift1_def)

lemma shift1_later: "0 < t \<Longrightarrow> t < length col \<Longrightarrow> shift1 col ! t = col ! (t - 1)"
  by (cases t) (auto simp: shift1_def nth_butlast)

lemma ffill_from_defined: "list_all (\<lambda>v. v \<noteq> None) col \<Longrightarrow> ffill_from prev col = col"
  by (induction prev col rule: ffill_from.induct) simp_all

lemma ffill_shift1_defined:
  assumes "list_all (\<lambda>v. v \<noteq> None) col"
  shows "ffill (shift1 col) = shift1 col"
proof (cases col)
  case Nil
  then show ?thesis by (simp add: ffill_def shift1_def)
next
  case (Cons v vs)
  from assms have "list_all (\<lambda>v. v \<noteq> None) (butlast col)"
    by (auto simp: list_all_iff dest: in_set_butlastD)
  then have "ffill_from None (butlast col) = butlast col"
    by (rule ffill_from_defined)
  with Cons show ?thesis
    by (simp add: ffill_def shift1_def)
qed

lemma lagged_sentiment_ffill:
  "ffill (lagged_sentiment merged_data) = lagged_sentiment merged_data"
proof -
  have "list_all (\<lambda>v. v \<noteq> None) (map (\<lambda>m. Some (adjusted_sentiment (fst m))) merged_data)"
    by (simp add: list_all_iff)
  then show ?thesis
    unfolding lagged_sentiment_def by (rule ffill_shift1_defined)
qed

text \<open>
  Claim C3, as stated: the merged dataset is sorted by date ascending before the derived
  columns are computed, so that the lag of a row is the sentiment of the row before it in
  date order. The code does not sort: the merged rows keep the order of the article rows.
  For the articles of day 21 and day 20, in this order, the merged series runs from day 21
  to day 20; the row of day 20 gets the sentiment of day 21 as its lag, and the row of day
  21, the second one in date order, has no lag.
\<close>

theorem C3_counterexample:
  "map (\<lambda>m. publishedAt (fst m))
     (pd_merge
        [\<lparr>title = ''a'', publishedAt = 21, cleaned_title = ''a'', sentiment = 0,
           adjusted_sentiment = 5 / 10\<rparr>,
         \<lparr>title = ''b'', publishedAt = 20, cleaned_title = ''b'', sentiment = 0,
           adjusted_sentiment = - 5 / 10\<rparr>]
        [\<lparr>Date = 20, Close = 100\<rparr>, \<lparr>Date = 21, Close = 101\<rparr>])
     = [21, 20]
   \<and> lagged_sentiment
     (pd_merge
        [\<lparr>title = ''a'', publishedAt = 21, cleaned_title = ''a'', sentiment = 0,
           adjusted_sentiment = 5 / 10\<rparr>,
         \<lparr>title = ''b'', publishedAt = 20, cleaned_title = ''b'', sentiment = 0,
           adjusted_sentiment = - 5 / 10\<rparr>]
        [\<lparr>Date = 20, Close = 100\<rparr>, \<lparr>Date = 21, Close = 101\<rparr>])
     = [None, Some (5 / 10)]"
  by code_simp

text \<open>
  Claim C3, amended: the Feature Builder does not sort; it computes the derived columns on
  the merged rows in the order in which the join returns them. For every row \<open>t > 0\<close> of
  that series the lagged sentiment is the adjusted sentiment of row \<open>t - 1\<close>, and the lag
  of the first row is undefined.
\<close>

theorem C3_lagged_sentiment:
  "length (lagged_sentiment (pd_merge news_df stock_data))
     = length (pd_merge news_df stock_data)
   \<and> (pd_merge news_df stock_data \<noteq> [] \<longrightarrow>
        lagged_sentiment (pd_merge news_df stock_data) ! 0 = None)
   \<and> (0 < t \<and> t < length (pd_merge news_df stock_data) \<longrightarrow>
        lagged_sentiment (pd_merge news_df stock_data) ! t
          = Some (adjusted_sentiment (fst (pd_merge news_df stock_data ! (t - 1)))))"
proof -
  let ?M = "pd_merge news_df stock_data"
  let ?col = "map (\<lambda>m. Some (adjusted_sentiment (fst m))) ?M"
  have "length (lagged_sentiment ?M) = length ?M"
    by (simp add: lagged_sentiment_def shift1_length)
  moreover have "lagged_sentiment ?M ! 0 = None" if "?M \<noteq> []"
    using that by (simp add: lagged_sentiment_def shift1_first)
  moreover have "lagged_sentiment ?M ! t = Some (adjusted_sentiment (fst (?M ! (t - 1))))"
    if "0 < t \<and> t < length ?M"
  proof -
    from that have "shift1 ?col ! t = ?col ! (t - 1)"
      by (intro shift1_later) simp_all
    also from that have "\<dots> = Some (adjusted_sentiment (fst (?M ! (t - 1))))"
      by (intro nth_map) arith
    finally show ?thesis by (simp add: lagged_sentiment_def)
  qed
  ultimately show ?thesis by simp
qed

theorem C3_lagged_sentiment_witness:
  "lagged_sentiment
     (pd_merge
        [\<lparr>title = ''a'', publishedAt = 21, cleaned_title = ''a'', sentiment = 0,
           adjusted_sentiment = 5 / 10\<rparr>,
         \<lparr>title = ''b'', publishedAt = 20, cleaned_title = ''b'', sentiment = 0,
           adjusted_sentiment = - 5 / 10\<rparr>]
        [\<lparr>Date = 20, Close = 100\<rparr>, \<lparr>Date = 21, Close = 101\<rparr>]) ! 1
     = Some (5 / 10)
   \<and> lagged_sentiment
     (pd_merge
        [\<lparr>title = ''a'', publishedAt = 21, cleaned_title = ''a'', sentiment = 0,
           adjusted_sentiment = 5 / 10\<rparr>,
         \<lparr>title = ''b'', publishedAt = 20, cleaned_title = ''b'', sentiment = 0,
           adjusted_sentiment = - 5 / 10\<rparr>]
        [\<lparr>Date = 20, Close = 100\<rparr>, \<lparr>Date = 21, Close = 101\<rparr>]) ! 0
     = None"
proof -
  let ?news = "[\<lparr>title = ''a'', publishedAt = 21, cleaned_title = ''a'', sentiment = 0,
           adjusted_sentiment = 5 / 10\<rparr>,
         \<lparr>title = ''b'', publishedAt = 20, cleaned_title = ''b'', sentiment = 0,
           adjusted_sentiment = - 5 / 10\<rparr>]"
  let ?stock = "[\<lparr>Date = 20, Close = 100\<rparr>, \<lparr>Date = 21, Close = 101\<rparr>]"
  have m: "pd_merge ?news ?stock = [(?news ! 0, ?stock ! 1), (?news ! 1, ?stock ! 0)]"
    by code_simp
  then have h: "pd_merge ?news ?stock \<noteq> []"
      "0 < (1::nat) \<and> 1 < length (pd_merge ?news ?stock)"
      "adjusted_sentiment (fst (pd_merge ?news ?stock ! (1 - 1))) = 5 / 10"
    by simp_all
  from C3_lagged_sentiment [of ?news ?stock 1] h show ?thesis
    by simp
qed


section \<open>Properties of the hourly dataset\<close>

lemma shift_back_length: "length (shift_back col) = length col"
  by (cases col) (simp_all add: shift_back_def)

lemma Movement_col_length: "length (Movement_col closes) = length closes"
  by (simp add: Movement_col_def shift_back_length)

lemma shift_back_inner: "t + 1 < length col \<Longrightarrow> shift_back col ! t = col ! (t + 1)"
  by (cases col) (simp_all add: shift_back_def nth_append)

lemma shift_back_last: "col \<noteq> [] \<Longrightarrow> shift_back col ! (length col - 1) = None"
  by (cases col) (simp_all add: shift_back_def nth_append)

lemma Movement_col_inner:
  assumes "t + 1 < length closes"
  shows "Movement_col closes ! t = (if gt_nan (closes ! (t + 1)) (closes ! t) then 1 else 0)"
proof -
  from assms have "t < length (zip (shift_back closes) closes)"
    by (simp add: shift_back_length)
  then have "Movement_col closes ! t
      = (if gt_nan (shift_back closes ! t) (closes ! t) then 1 else 0)"
    by (simp add: Movement_col_def shift_back_length)
  with assms show ?thesis
    by (simp add: shift_back_inner)
qed

lemma Movement_col_last:
  assumes "closes \<noteq> []"
  shows "Movement_col closes ! (length closes - 1) = 0"
proof -
  from assms have "length closes - 1 < length (zip (shift_back closes) closes)"
    by (simp add: shift_back_length)
  then have "Movement_col closes ! (length closes - 1)
      = (if gt_nan (shift_back closes ! (length closes - 1)) (closes ! (length closes - 1))
         then 1 else 0)"
    by (simp add: Movement_col_def shift_back_length)
  with shift_back_last [OF assms] show ?thesis
    by (simp add: gt_nan_def)
qed

lemma last_filter_kept:
  "xs \<noteq> [] \<Longrightarrow> P (last xs) \<Longrightarrow> last (filter P xs) = last xs \<and> filter P xs \<noteq> []"
  by (induction xs rule: rev_induct) simp_all

lemma label_hourly_last:
  assumes "hourly \<noteq> []"
  shows "last (label_hourly hourly)
           = \<lparr>stamp = stamp (last hourly), c_sentiment = c_sentiment (last hourly),
              c_adjusted_sentiment = c_adjusted_sentiment (last hourly),
              c_Close = c_Close (last hourly),
              c_lagged_sentiment = shift1 (map c_adjusted_sentiment hourly) ! (length hourly - 1),
              c_MA_7_day = c_MA_7_day (last hourly),
              Movement = 0\<rparr>"
proof -
  from assms have n: "[0..<length hourly] \<noteq> []" "last [0..<length hourly] = length hourly - 1"
    by (simp_all add: last_upt)
  from assms have m: "Movement_col (map c_Close hourly) ! (length hourly - 1) = 0"
    using Movement_col_last [of "map c_Close hourly"] by simp
  from assms have l: "hourly ! (length hourly - 1) = last hourly"
    by (simp add: last_conv_nth)
  from n m l show ?thesis
    by (simp add: label_hourly_def Let_def last_map)
qed

text \<open>
  Whenever the hourly series has at least two buckets, no column of its final bucket is
  missing and the bucket before it has a sentiment, the final bucket stays in the hourly
  dataset, with the label 0.
\<close>

lemma final_bucket_label:
  assumes "hourly = ffill_frame (resample_H_mean merged_data)"
      and "2 \<le> length hourly"
      and "c_sentiment (last hourly) \<noteq> None" "c_adjusted_sentiment (last hourly) \<noteq> None"
          "c_Close (last hourly) \<noteq> None" "c_MA_7_day (last hourly) \<noteq> None"
      and "c_adjusted_sentiment (hourly ! (length hourly - 2)) \<noteq> None"
  shows "merged_data_hourly merged_data \<noteq> []
         \<and> stamp (last (merged_data_hourly merged_data)) = stamp (last hourly)
         \<and> Movement (last (merged_data_hourly merged_data)) = 0"
proof -
  from assms(2) have ne: "hourly \<noteq> []" by auto
  from assms(2) have "shift1 (map c_adjusted_sentiment hourly) ! (length hourly - 1)
      = map c_adjusted_sentiment hourly ! (length hourly - 1 - 1)"
    by (intro shift1_later) simp_all
  also from assms(2) have "\<dots> = c_adjusted_sentiment (hourly ! (length hourly - 2))"
    by (simp add: numeral_2_eq_2)
  finally have lag: "shift1 (map c_adjusted_sentiment hourly) ! (length hourly - 1) \<noteq> None"
    using assms(7) by simp
  from ne have lne: "label_hourly hourly \<noteq> []"
    by (simp add: label_hourly_def Let_def)
  from lag assms(3-6) have "row_complete (last (label_hourly hourly))"
    by (simp add: label_hourly_last [OF ne] row_complete_def)
  with lne have "last (filter row_complete (label_hourly hourly)) = last (label_hourly hourly)
      \<and> filter row_complete (label_hourly hourly) \<noteq> []"
    by (intro last_filter_kept)
  moreover have "stamp (last (label_hourly hourly)) = stamp (last hourly)"
      "Movement (last (label_hourly hourly)) = 0"
    by (simp_all add: label_hourly_last [OF ne])
  ultimately show ?thesis
    unfolding merged_data_hourly_def assms(1) [symmetric] by simp
qed


text \<open>
  Claim C5: in the hourly dataset the label of a bucket is 1 if the close of the next
  bucket exceeds its own and 0 otherwise, and the final bucket, which has no next bucket,
  is always dropped. The code gives the final bucket the label 0, because the comparison
  with a missing value is false and the result is cast to an integer, so \<open>dropna\<close> keeps
  the bucket whenever its other columns are defined. Here the frame holds four articles of
  day 21 followed by four of day 20 (closes 12 and 10 before scaling): of the 25 hourly
  buckets only the first is dropped, for its missing lag, and the final bucket of day 21
  stays in the dataset with the label 0.
\<close>

theorem C5_final_bucket_kept:
  "(let merged_data =
          map (\<lambda>(d, a, c, l, m).
                 \<lparr>stamp = 24 * d, c_sentiment = Some 0, c_adjusted_sentiment = Some a,
                  c_Close = Some c, c_lagged_sentiment = l, c_MA_7_day = m\<rparr>)
            [(21, - 1, 1, None, None),
             (21, - 1, 1, Some (- 1 / 2), None),
             (21, - 1, 1, Some (- 1 / 2), None),
             (21, - 1, 1, Some (- 1 / 2), None),
             (20, 1, - 1, Some (- 1 / 2), None),
             (20, 1, - 1, Some (1 / 2), None),
             (20, 1, - 1, Some (1 / 2), Some 1),
             (20, 1, - 1, Some (1 / 2), Some (- 1))];
        hourly = merged_data_hourly merged_data
    in length (resample_H_mean merged_data) = 25
       \<and> length hourly = 24
       \<and> map (\<lambda>r. (stamp r, c_Close r, Movement r)) (drop 21 hourly)
           = [(502, Some (- 1), 0), (503, Some (- 1), 1), (504, Some 1, 0)])"
  by code_simp


end
